theory Spec2Isabelle
  imports Complex_Main "HOL-Library.Sublist" "HOL-Library.Word"
begin

unbundle bit_operations_syntax

section \<open>Strings\<close>

text \<open>
  A Python \<open>str\<close> is modelled as a HOL \<open>string\<close>: a list of characters, one per code
  point, for the code points 0 to 255.  \<open>flags\<close> is a Python \<open>int\<close>, hence an
  unbounded HOL \<open>int\<close>; \<open>AND\<close> and \<open>push_bit\<close> on \<open>int\<close> are the two's-complement
  operations \<open>&\<close> and \<open><<\<close> of Python.
\<close>

text \<open>\<open>str.isspace\<close> on one character: the white space among the code points below 256.\<close>

definition isspace :: "char \<Rightarrow> bool" where
  "isspace c = (c \<in> {CHR 0x09, CHR 0x0A, CHR 0x0B, CHR 0x0C, CHR 0x0D, CHR 0x1C, CHR 0x1D,
                     CHR 0x1E, CHR 0x1F, CHR 0x20, CHR 0x85, CHR 0xA0})"

text \<open>\<open>str.strip()\<close>: white space removed at both ends.\<close>

definition strip :: "string \<Rightarrow> string" where
  "strip s = rev (dropWhile isspace (rev (dropWhile isspace s)))"

text \<open>\<open>str.lower()\<close>: A to Z and the upper-case letters of the Latin-1 block move up by 32.\<close>

definition lower_char :: "char \<Rightarrow> char" where
  "lower_char c =
     (let n = (of_char c :: nat)
      in if (65 \<le> n \<and> n \<le> 90) \<or> (192 \<le> n \<and> n \<le> 222 \<and> n \<noteq> 215)
         then char_of (n + 32) else c)"

definition lower :: "string \<Rightarrow> string" where
  "lower s = map lower_char s"

text \<open>\<open>sub in s\<close> on strings: \<open>sub\<close> occurs in \<open>s\<close> as a contiguous block.\<close>

fun str_contains :: "string \<Rightarrow> string \<Rightarrow> bool" where
  "str_contains sub [] = (sub = [])"
| "str_contains sub (c # cs) = (prefix sub (c # cs) \<or> str_contains sub cs)"

section \<open>Font flags and font names (\<open>marker/v2/providers/pdf.py\<close>)\<close>

definition flag_map :: "(nat \<times> string) list" where
  "flag_map =
     [(1, ''FixedPitch''), (2, ''Serif''), (3, ''Symbolic''), (4, ''Script''),
      (6, ''Nonsymbolic''), (7, ''Italic''), (17, ''AllCap''), (18, ''SmallCap''),
      (19, ''ForceBold''), (20, ''UseExternAttr'')]"

text \<open>The loop over \<open>flag_map.items()\<close>, adding the names of the bits set in \<open>flags\<close>.\<close>

fun collect_flags :: "int \<Rightarrow> (nat \<times> string) list \<Rightarrow> string set \<Rightarrow> string set" where
  "collect_flags flags [] set_flags = set_flags"
| "collect_flags flags ((bit_position, flag_name) # rest) set_flags =
     collect_flags flags rest
       (if flags AND push_bit (bit_position - 1) 1 \<noteq> 0
        then insert flag_name set_flags else set_flags)"

definition set_flags_of :: "int \<Rightarrow> string set" where
  "set_flags_of flags =
     (let set_flags = collect_flags flags flag_map {}
      in if set_flags = {} then insert ''Plain'' set_flags else set_flags)"

definition formats_of_set_flags :: "string set \<Rightarrow> string set" where
  "formats_of_set_flags set_flags =
     (if set_flags = {''Symbolic'', ''Italic''} \<or>
         set_flags = {''Symbolic'', ''Italic'', ''UseExternAttr''}
      then {''math''}
      else if set_flags = {''UseExternAttr''} then {''plain''}
      else if set_flags = {''Plain''} then {''plain''}
      else (if set_flags \<inter> {''Italic''} \<noteq> {} then {''italic''} else {}) \<union>
           (if set_flags \<inter> {''ForceBold''} \<noteq> {} then {''bold''} else {}) \<union>
           (if set_flags \<inter> {''FixedPitch'', ''Serif'', ''Script'', ''Nonsymbolic'',
                              ''AllCap'', ''SmallCap'', ''UseExternAttr''} \<noteq> {}
            then {''plain''} else {}))"

definition font_flags_to_format :: "int \<Rightarrow> string set" where
  "font_flags_to_format flags = formats_of_set_flags (set_flags_of flags)"

definition font_names_to_format :: "string \<Rightarrow> string set" where
  "font_names_to_format font_name =
     (if str_contains ''bold'' (lower font_name) then {''bold''} else {}) \<union>
     (if str_contains ''ital'' (lower font_name) then {''italic''} else {})"

text \<open>
  The classification of a span's font in \<open>setup\<close>:
  \<open>font_flags_to_format(flags).union(font_names_to_format(name))\<close>.
\<close>

definition font_formats :: "int \<Rightarrow> string \<Rightarrow> string set" where
  "font_formats flags font_name = font_flags_to_format flags \<union> font_names_to_format font_name"

text \<open>
  The bit positions of \<open>flag_map\<close> (counted from 1, as its keys are) whose bit is set in
  \<open>flags\<close>; bits that \<open>flag_map\<close> does not name are not looked at.
\<close>

definition named_bits :: "int \<Rightarrow> nat set" where
  "named_bits flags =
     set (filter (\<lambda>bit_position. flags AND push_bit (bit_position - 1) 1 \<noteq> 0)
            (map fst flag_map))"

section \<open>Spans and their markup (\<open>marker/schema/text/span.py\<close>)\<close>

text \<open>
  The fields of \<open>Span\<close>, with \<open>polygon\<close>, \<open>page_id\<close> and \<open>ignore_for_output\<close> of its base
  class.  The field \<open>text\<close> is written \<open>span_text\<close>.  The type of a polygon is a parameter.
\<close>

record 'poly span =
  polygon :: 'poly
  span_text :: string
  font :: string
  font_weight :: real
  font_size :: real
  minimum_position :: int
  maximum_position :: int
  formats :: "string list"
  page_id :: int
  url :: "string option"
  anchor :: "string option"
  ignore_for_output :: bool

definition bold :: "'poly span \<Rightarrow> bool" where
  "bold s = (''bold'' \<in> set (formats s))"

definition italic :: "'poly span \<Rightarrow> bool" where
  "italic s = (''italic'' \<in> set (formats s))"

definition math :: "'poly span \<Rightarrow> bool" where
  "math s = (''math'' \<in> set (formats s))"

text \<open>The regular expression \<open>(\n\s){3,}\<close>: the number of groups "newline, then one
  white-space character" that stand one after the other at the start of the text.\<close>

fun newline_space_groups :: "string \<Rightarrow> nat" where
  "newline_space_groups (a # b # rest) =
     (if a = CHR 0x0A \<and> isspace b then Suc (newline_space_groups rest) else 0)"
| "newline_space_groups s = 0"

text \<open>
  \<open>re.sub(r'(\n\s){3,}', '\n\n', full_text)\<close>: the text is scanned from the left; where three or
  more groups stand, the longest run of groups is replaced by two newlines and the scan goes
  on behind it; elsewhere the character is kept.
\<close>

function re_sub_newlines :: "string \<Rightarrow> string" where
  "re_sub_newlines [] = []"
| "re_sub_newlines (c # cs) =
     (if 3 \<le> newline_space_groups (c # cs)
      then [CHR 0x0A, CHR 0x0A] @
           re_sub_newlines (drop (2 * newline_space_groups (c # cs)) (c # cs))
      else c # re_sub_newlines cs)"
  by pat_completeness auto
termination
  by (relation "measure length") auto

definition cleanup_text :: "string \<Rightarrow> string" where
  "cleanup_text full_text =
     map (\<lambda>c. if c = CHR 0xA0 then CHR 0x20 else c) (re_sub_newlines full_text)"

text \<open>The first loop of \<open>assemble_html\<close>: trailing newlines and carriage returns are cut.\<close>

function strip_trailing_newlines :: "string \<Rightarrow> bool \<Rightarrow> string \<times> bool" where
  "strip_trailing_newlines txt replaced_newline =
     (if length txt > 0 \<and> last txt \<in> {CHR 0x0A, CHR 0x0D}
      then strip_trailing_newlines (butlast txt) True
      else (txt, replaced_newline))"
  by pat_completeness auto
termination
  by (relation "measure (\<lambda>(txt, replaced_newline). length txt)") auto

declare strip_trailing_newlines.simps [simp del]

text \<open>The second loop: leading newlines and carriage returns are cut.\<close>

fun strip_leading_newlines :: "string \<Rightarrow> string" where
  "strip_leading_newlines [] = []"
| "strip_leading_newlines (c # cs) =
     (if c \<in> {CHR 0x0A, CHR 0x0D} then strip_leading_newlines cs else c # cs)"

text \<open>\<open>text.endswith('-')\<close>.\<close>

definition endswith_hyphen :: "string \<Rightarrow> bool" where
  "endswith_hyphen txt = (txt \<noteq> [] \<and> last txt = CHR ''-'')"

text \<open>\<open>text.replace("-\n", "")\<close>: every hyphen directly followed by a newline goes, scanning
  from the left.\<close>

fun remove_hyphen_newline :: "string \<Rightarrow> string" where
  "remove_hyphen_newline (a # b # rest) =
     (if a = CHR ''-'' \<and> b = CHR 0x0A then remove_hyphen_newline rest
      else a # remove_hyphen_newline (b # rest))"
| "remove_hyphen_newline s = s"

text \<open>\<open>html.escape(text)\<close> of the standard library: five replacements of one character, the
  ampersand first, the two quotes last.\<close>

definition replace_char :: "char \<Rightarrow> string \<Rightarrow> string \<Rightarrow> string" where
  "replace_char c new s = concat (map (\<lambda>x. if x = c then new else [x]) s)"

definition html_escape :: "string \<Rightarrow> string" where
  "html_escape s =
     replace_char (CHR 0x27) ''&#x27;''
       (replace_char (CHR 0x22) ''&quot;''
         (replace_char (CHR ''>'') ''&gt;''
           (replace_char (CHR ''<'') ''&lt;''
             (replace_char (CHR ''&'') ''&amp;'' s))))"

text \<open>The text of \<open>assemble_html\<close> before it is wrapped.\<close>

definition prepare_text :: "string \<Rightarrow> string" where
  "prepare_text txt0 =
     (let (txt, replaced_newline) = strip_trailing_newlines txt0 False;
          txt = strip_leading_newlines txt;
          txt = (if replaced_newline \<and> \<not> endswith_hyphen txt then txt @ '' '' else txt);
          txt = remove_hyphen_newline txt;
          txt = html_escape txt
      in cleanup_text txt)"

text \<open>The truth value of an optional string: \<open>None\<close> and the empty string are false.\<close>

definition truthy :: "string option \<Rightarrow> bool" where
  "truthy v = (case v of None \<Rightarrow> False | Some x \<Rightarrow> x \<noteq> [])"

text \<open>An optional string inside an f-string.\<close>

definition format_str :: "string option \<Rightarrow> string" where
  "format_str v = (case v of None \<Rightarrow> ''None'' | Some x \<Rightarrow> x)"

text \<open>
  \<open>Span.assemble_html\<close>; its arguments \<open>child_blocks\<close> and \<open>parent_structure\<close> are not used by
  the body and are left out.  \<open>CHR 0x27\<close> is the single quote of the markup.
\<close>

definition assemble_html :: "'poly span \<Rightarrow> string" where
  "assemble_html s =
     (if ignore_for_output s then []
      else
        let txt = prepare_text (span_text s)
        in if italic s then ''<i>'' @ txt @ ''</i>''
           else if bold s then ''<b>'' @ txt @ ''</b>''
           else if math s
             then ''<math display='' @ [CHR 0x27] @ ''inline'' @ [CHR 0x27] @ ''>'' @ txt @
                  ''</math>''
           else if truthy (url s) \<and> truthy (anchor s)
             then ''<span id='' @ [CHR 0x27] @ format_str (anchor s) @ [CHR 0x27] @
                  ''><a href='' @ [CHR 0x27] @ format_str (url s) @ [CHR 0x27] @ ''>'' @ txt @
                  ''</a></span>''
           else if truthy (url s)
             then ''<a href='' @ [CHR 0x27] @ format_str (url s) @ [CHR 0x27] @ ''>'' @ txt @
                  ''</a>''
           else if truthy (anchor s)
             then ''<span id='' @ [CHR 0x27] @ format_str (anchor s) @ [CHR 0x27] @ ''>'' @ txt @
                  ''</span>''
           else txt)"

text \<open>
  The wrappers of \<open>assemble_html\<close> as the specification lists them: the rules, when each
  applies, what each puts around the text, and their priority order.
\<close>

datatype wrapper =
  Wrap_italic | Wrap_bold | Wrap_math | Wrap_url_anchor | Wrap_url | Wrap_anchor

fun rule_applies :: "wrapper \<Rightarrow> 'poly span \<Rightarrow> bool" where
  "rule_applies Wrap_italic s = italic s"
| "rule_applies Wrap_bold s = bold s"
| "rule_applies Wrap_math s = math s"
| "rule_applies Wrap_url_anchor s = (truthy (url s) \<and> truthy (anchor s))"
| "rule_applies Wrap_url s = truthy (url s)"
| "rule_applies Wrap_anchor s = truthy (anchor s)"

fun wrap :: "wrapper \<Rightarrow> 'poly span \<Rightarrow> string \<Rightarrow> string" where
  "wrap Wrap_italic s txt = ''<i>'' @ txt @ ''</i>''"
| "wrap Wrap_bold s txt = ''<b>'' @ txt @ ''</b>''"
| "wrap Wrap_math s txt =
     ''<math display='' @ [CHR 0x27] @ ''inline'' @ [CHR 0x27] @ ''>'' @ txt @ ''</math>''"
| "wrap Wrap_url_anchor s txt =
     ''<span id='' @ [CHR 0x27] @ format_str (anchor s) @ [CHR 0x27] @
     ''><a href='' @ [CHR 0x27] @ format_str (url s) @ [CHR 0x27] @ ''>'' @ txt @
     ''</a></span>''"
| "wrap Wrap_url s txt =
     ''<a href='' @ [CHR 0x27] @ format_str (url s) @ [CHR 0x27] @ ''>'' @ txt @ ''</a>''"
| "wrap Wrap_anchor s txt =
     ''<span id='' @ [CHR 0x27] @ format_str (anchor s) @ [CHR 0x27] @ ''>'' @ txt @ ''</span>''"

definition wrapper_priority :: "wrapper list" where
  "wrapper_priority =
     [Wrap_italic, Wrap_bold, Wrap_math, Wrap_url_anchor, Wrap_url, Wrap_anchor]"

definition first_wrapper :: "'poly span \<Rightarrow> wrapper option" where
  "first_wrapper s = find (\<lambda>w. rule_applies w s) wrapper_priority"


section \<open>The PDF provider (\<open>marker/v2/providers/pdf.py\<close>)\<close>

text \<open>
  The page records that \<open>dictionary_output\<close> returns: dictionaries with the keys \<open>page\<close> and
  \<open>blocks\<close>; a block has \<open>lines\<close>; a line has \<open>bbox\<close> and \<open>spans\<close>; a span has \<open>bbox\<close>,
  \<open>text\<close>, \<open>font\<close> (\<open>name\<close>, \<open>flags\<close>, \<open>weight\<close>, \<open>size\<close>), \<open>char_start_idx\<close> and
  \<open>char_end_idx\<close>.  Each key is a field, with a prefix for its dictionary.
\<close>

record raw_font =
  rf_name :: string
  rf_flags :: int
  rf_weight :: real
  rf_size :: real

record raw_span =
  rs_bbox :: "real list"
  rs_text :: string
  rs_font :: raw_font
  rs_char_start_idx :: int
  rs_char_end_idx :: int

record raw_line =
  rl_bbox :: "real list"
  rl_spans :: "raw_span list"

record raw_block =
  rb_lines :: "raw_line list"

record raw_page =
  rp_page :: int
  rp_blocks :: "raw_block list"

record 'poly line =
  line_polygon :: 'poly
  line_page_id :: int

text \<open>
  A document handle of the native engine: \<open>len(doc)\<close> and \<open>doc[idx]\<close>, which gives no page
  where the engine raises.
\<close>

record 'pg pdf_document =
  doc_len :: nat
  doc_page :: "int \<Rightarrow> 'pg option"

datatype error = Document_open_error | Extraction_error | Page_load_error

text \<open>
  What the provider calls and this repository does not define: \<open>PolygonBox.from_bbox\<close>, the
  order in which \<open>list\<close> walks a set of strings, \<open>detect_bad_ocr\<close>, \<open>pdfium.PdfDocument\<close>,
  \<open>dictionary_output\<close> (file path, page range, workers, flatten), and the rasterizer
  \<open>page.render(scale=dpi / 72, draw_annots=False).to_pil().convert("RGB")\<close> as a function of
  the page and of \<open>dpi\<close>.  The rasterizer also gets the number of rasterizations made before,
  so that two runs of it on the same page need not give the same image.
\<close>

record ('poly, 'pg, 'img) collaborators =
  from_bbox :: "real list \<Rightarrow> 'poly"
  list_of_set :: "string set \<Rightarrow> string list"
  detect_bad_ocr :: "string \<Rightarrow> bool"
  open_document :: "string \<Rightarrow> 'pg pdf_document option"
  dictionary_output :: "string \<Rightarrow> int list option \<Rightarrow> nat \<Rightarrow> bool \<Rightarrow> raw_page list option"
  render_page :: "nat \<Rightarrow> 'pg \<Rightarrow> int \<Rightarrow> 'img"

record provider_config =
  filepath :: string
  page_range :: "int list option"
  pdftext_workers :: nat
  flatten_pdf :: bool

type_synonym 'poly page_provider_line = "'poly line list \<times> 'poly span list list"

record ('poly, 'pg) pdf_provider =
  doc :: "'pg pdf_document"
  page_lines :: "int \<rightharpoonup> 'poly page_provider_line"

text \<open>The \<open>Span(...)\<close> of \<open>setup\<close>; the fields it does not pass keep their defaults.\<close>

definition make_span ::
  "('poly, 'pg, 'img) collaborators \<Rightarrow> int \<Rightarrow> raw_span \<Rightarrow> 'poly span" where
  "make_span env pid sp =
     \<lparr>polygon = from_bbox env (rs_bbox sp),
      span_text = strip (rs_text sp),
      font = rf_name (rs_font sp),
      font_weight = rf_weight (rs_font sp),
      font_size = rf_size (rs_font sp),
      minimum_position = rs_char_start_idx sp,
      maximum_position = rs_char_end_idx sp,
      formats = list_of_set env (font_formats (rf_flags (rs_font sp)) (rf_name (rs_font sp))),
      page_id = pid,
      url = None,
      anchor = None,
      ignore_for_output = False\<rparr>"

text \<open>The loop over \<open>line["spans"]\<close>: a span with blank text is skipped.\<close>

fun collect_spans ::
  "('poly, 'pg, 'img) collaborators \<Rightarrow> int \<Rightarrow> raw_span list \<Rightarrow> 'poly span list \<Rightarrow>
   'poly span list" where
  "collect_spans env pid [] spans = spans"
| "collect_spans env pid (sp # rest) spans =
     (if strip (rs_text sp) = [] then collect_spans env pid rest spans
      else collect_spans env pid rest (spans @ [make_span env pid sp]))"

text \<open>The loop over \<open>block["lines"]\<close>.\<close>

fun collect_lines ::
  "('poly, 'pg, 'img) collaborators \<Rightarrow> int \<Rightarrow> raw_line list \<Rightarrow> 'poly page_provider_line \<Rightarrow>
   'poly page_provider_line" where
  "collect_lines env pid [] acc = acc"
| "collect_lines env pid (rl # rest) (lines, line_spans) =
     collect_lines env pid rest
       (lines @ [\<lparr>line_polygon = from_bbox env (rl_bbox rl), line_page_id = pid\<rparr>],
        line_spans @ [collect_spans env pid (rl_spans rl) []])"

text \<open>The loop over \<open>page["blocks"]\<close>.\<close>

fun collect_blocks ::
  "('poly, 'pg, 'img) collaborators \<Rightarrow> int \<Rightarrow> raw_block list \<Rightarrow> 'poly page_provider_line \<Rightarrow>
   'poly page_provider_line" where
  "collect_blocks env pid [] acc = acc"
| "collect_blocks env pid (block # rest) acc =
     collect_blocks env pid rest (collect_lines env pid (rb_lines block) acc)"

text \<open>The two loops of \<open>check_line_spans\<close> that build the text of the page.\<close>

fun line_text :: "'poly span list \<Rightarrow> string \<Rightarrow> string" where
  "line_text [] txt = txt"
| "line_text (sp # rest) txt = line_text rest (txt @ '' '' @ span_text sp)"

fun page_text :: "'poly span list list \<Rightarrow> string \<Rightarrow> string" where
  "page_text [] txt = txt"
| "page_text (line_spans # rest) txt = page_text rest (line_text line_spans txt @ [CHR 0x0A])"

definition check_line_spans ::
  "('poly, 'pg, 'img) collaborators \<Rightarrow> 'poly span list list \<Rightarrow> bool" where
  "check_line_spans env line_spans_list =
     (if length (concat line_spans_list) = 0 then False
      else
        let txt = page_text line_spans_list []
        in if length (strip txt) = 0 then False
           else if detect_bad_ocr env txt then False
           else True)"

text \<open>The loop of \<open>setup\<close> over the page records.\<close>

fun setup_pages ::
  "('poly, 'pg, 'img) collaborators \<Rightarrow> raw_page list \<Rightarrow> (int \<rightharpoonup> 'poly page_provider_line) \<Rightarrow>
   (int \<rightharpoonup> 'poly page_provider_line)" where
  "setup_pages env [] pl = pl"
| "setup_pages env (page # rest) pl =
     (let pid = rp_page page;
          (lines, line_spans) = collect_blocks env pid (rp_blocks page) ([], [])
      in setup_pages env rest
           (if check_line_spans env line_spans then pl(pid \<mapsto> (lines, line_spans)) else pl))"

text \<open>
  \<open>PdfProvider.__init__\<close>: \<open>page_lines\<close> starts empty, then \<open>setup\<close> opens the document and
  walks the page records.  A failure of the engine ends the construction.
\<close>

definition provider_init ::
  "('poly, 'pg, 'img) collaborators \<Rightarrow> provider_config \<Rightarrow> error + ('poly, 'pg) pdf_provider" where
  "provider_init env cfg =
     (case open_document env (filepath cfg) of
        None \<Rightarrow> Inl Document_open_error
      | Some d \<Rightarrow>
          (case dictionary_output env (filepath cfg) (page_range cfg) (pdftext_workers cfg)
                  (flatten_pdf cfg) of
             None \<Rightarrow> Inl Extraction_error
           | Some page_char_blocks \<Rightarrow>
               Inr \<lparr>doc = d, page_lines = setup_pages env page_char_blocks Map.empty\<rparr>))"

text \<open>\<open>PdfProvider.__len__\<close>.\<close>

definition provider_len :: "('poly, 'pg) pdf_provider \<Rightarrow> nat" where
  "provider_len p = doc_len (doc p)"






text \<open>A page record whose every span has a text of white space only (or no text).\<close>

definition blank_page :: "raw_page \<Rightarrow> bool" where
  "blank_page page =
     (\<forall>block \<in> set (rp_blocks page). \<forall>rl \<in> set (rb_lines block).
        \<forall>sp \<in> set (rl_spans rl). \<forall>c \<in> set (rs_text sp). isspace c)"

section \<open>An example document\<close>

text \<open>
  A document of two pages for the examples below: page 0 has one span of two spaces, page 1
  has one span with the text \<open>x\<close>.  Polygons are the boxes themselves, a set of tags is listed
  in a fixed order, no text is taken for bad OCR, a page is its index and an image is the
  pair of the page and \<open>dpi\<close>.
\<close>

definition example_span :: "string \<Rightarrow> raw_span" where
  "example_span t =
     \<lparr>rs_bbox = [0, 0, 10, 10], rs_text = t,
      rs_font = \<lparr>rf_name = ''Times'', rf_flags = 34, rf_weight = 400, rf_size = 10\<rparr>,
      rs_char_start_idx = 0, rs_char_end_idx = 1\<rparr>"

definition example_page :: "int \<Rightarrow> string \<Rightarrow> raw_page" where
  "example_page i t =
     \<lparr>rp_page = i,
      rp_blocks = [\<lparr>rb_lines = [\<lparr>rl_bbox = [0, 0, 10, 10], rl_spans = [example_span t]\<rparr>]\<rparr>]\<rparr>"

definition example_pages :: "raw_page list" where
  "example_pages = [example_page 0 ''  '', example_page 1 ''x'']"

definition example_env :: "(real list, int, int \<times> int) collaborators" where
  "example_env =
     \<lparr>from_bbox = (\<lambda>b. b),
      list_of_set = (\<lambda>S. filter (\<lambda>t. t \<in> S) [''plain'', ''math'', ''bold'', ''italic'']),
      detect_bad_ocr = (\<lambda>t. False),
      open_document =
        (\<lambda>f. Some \<lparr>doc_len = 2, doc_page = (\<lambda>i. if 0 \<le> i \<and> i < 2 then Some i else None)\<rparr>),
      dictionary_output =
        (\<lambda>f r w fl. Some (filter (\<lambda>q. case r of None \<Rightarrow> True | Some is \<Rightarrow> rp_page q \<in> set is)
                              example_pages)),
      render_page = (\<lambda>n pg dpi. (pg, dpi))\<rparr>"

definition example_config :: "int list option \<Rightarrow> provider_config" where
  "example_config r =
     \<lparr>filepath = ''a.pdf'', page_range = r, pdftext_workers = 4, flatten_pdf = True\<rparr>"




section \<open>The font classifier\<close>

lemma collect_flags_eq:
  "collect_flags flags m acc =
     acc \<union> set (map snd (filter (\<lambda>(bp, name). flags AND push_bit (bp - 1) 1 \<noteq> 0) m))"
proof (induction m arbitrary: acc)
  case Nil
  show ?case by simp
next
  case (Cons a m)
  obtain bp nm where a: "a = (bp, nm)" by (cases a)
  show ?case
    by (simp only: a collect_flags.simps Cons.IH filter.simps list.map split_conv snd_conv
        set_simps Un_insert_left Un_insert_right split: if_split) simp
qed

lemma named_bits_iff:
  "bp \<in> named_bits flags \<longleftrightarrow>
     bp \<in> fst ` set flag_map \<and> flags AND push_bit (bp - 1) 1 \<noteq> 0"
  unfolding named_bits_def set_filter set_map by blast

lemma collect_flags_named:
  "collect_flags flags flag_map {} =
     set (map snd (filter (\<lambda>(bp, name). bp \<in> named_bits flags) flag_map))"
proof -
  have "filter (\<lambda>(bp, name). flags AND push_bit (bp - 1) 1 \<noteq> 0) flag_map =
        filter (\<lambda>(bp, name). bp \<in> named_bits flags) flag_map"
  proof (rule filter_cong [OF refl])
    fix x assume x: "x \<in> set flag_map"
    obtain bp nm where xe: "x = (bp, nm)" by (cases x)
    from x xe have "bp \<in> fst ` set flag_map" by (metis fst_conv imageI)
    then show "(case x of (bp, name) \<Rightarrow> flags AND push_bit (bp - 1) 1 \<noteq> 0) =
               (case x of (bp, name) \<Rightarrow> bp \<in> named_bits flags)"
      unfolding xe split_conv named_bits_iff by blast
  qed
  then show ?thesis
    unfolding collect_flags_eq by (simp only: Un_empty_left)
qed

lemma set_flags_Symbolic:
  assumes "named_bits flags = {3}"
  shows "set_flags_of flags = {''Symbolic''}"
proof -
  have "collect_flags flags flag_map {} =
        set (map snd (filter (\<lambda>(bp, name). bp \<in> {3}) flag_map))"
    unfolding collect_flags_named assms ..
  also have "\<dots> = {''Symbolic''}"
    by (simp add: flag_map_def)
  finally show ?thesis
    by (simp add: set_flags_of_def)
qed

lemma set_flags_Symbolic_Italic:
  assumes "named_bits flags = {3, 7}"
  shows "set_flags_of flags = {''Symbolic'', ''Italic''}"
proof -
  have "collect_flags flags flag_map {} =
        set (map snd (filter (\<lambda>(bp, name). bp \<in> {3, 7}) flag_map))"
    unfolding collect_flags_named assms ..
  also have "\<dots> = {''Symbolic'', ''Italic''}"
    by (simp add: flag_map_def)
  finally show ?thesis
    by (simp add: set_flags_of_def)
qed

lemma set_flags_Symbolic_Italic_Extern:
  assumes "named_bits flags = {3, 7, 20}"
  shows "set_flags_of flags = {''Symbolic'', ''Italic'', ''UseExternAttr''}"
proof -
  have "collect_flags flags flag_map {} =
        set (map snd (filter (\<lambda>(bp, name). bp \<in> {3, 7, 20}) flag_map))"
    unfolding collect_flags_named assms ..
  also have "\<dots> = {''Symbolic'', ''Italic'', ''UseExternAttr''}"
    by (simp add: flag_map_def)
  finally show ?thesis
    by (simp add: set_flags_of_def)
qed

lemma set_flags_zero: "set_flags_of 0 = {''Plain''}"
  by (simp add: set_flags_of_def flag_map_def)

lemma formats_of_set_flags_subset:
  "formats_of_set_flags S \<subseteq> {''plain'', ''math'', ''bold'', ''italic''}"
  by (simp add: formats_of_set_flags_def)

lemma font_names_to_format_subset:
  "font_names_to_format font_name \<subseteq> {''bold'', ''italic''}"
  by (simp add: font_names_to_format_def)

lemma font_formats_subset:
  "font_formats flags font_name \<subseteq> {''plain'', ''math'', ''bold'', ''italic''}"
proof -
  have "{''bold'', ''italic''} \<subseteq> {''plain'', ''math'', ''bold'', ''italic''}"
    by simp
  with font_names_to_format_subset
  have "font_names_to_format font_name \<subseteq> {''plain'', ''math'', ''bold'', ''italic''}"
    by (rule subset_trans)
  with formats_of_set_flags_subset show ?thesis
    unfolding font_formats_def font_flags_to_format_def by (rule Un_least)
qed

lemma font_names_to_format_empty:
  "\<not> str_contains ''bold'' (lower font_name) \<Longrightarrow>
   \<not> str_contains ''ital'' (lower font_name) \<Longrightarrow> font_names_to_format font_name = {}"
  by (simp add: font_names_to_format_def)

text \<open>
  Claim C2.  When the bits that \<open>flag_map\<close> names and \<open>flags\<close> has set are exactly
  Symbolic (3) and Italic (7), or exactly Symbolic, Italic and UseExternAttr (20), and the
  lower-cased font name contains neither \<open>bold\<close> nor \<open>ital\<close>, the classification is
  exactly \<open>{math}\<close>.
\<close>

theorem classify_symbolic_italic_is_math:
  assumes "named_bits flags = {3, 7} \<or> named_bits flags = {3, 7, 20}"
    and "\<not> str_contains ''bold'' (lower font_name)"
    and "\<not> str_contains ''ital'' (lower font_name)"
  shows "font_formats flags font_name = {''math''}"
proof -
  from assms(1) have "set_flags_of flags = {''Symbolic'', ''Italic''} \<or>
      set_flags_of flags = {''Symbolic'', ''Italic'', ''UseExternAttr''}"
    by (auto simp: set_flags_Symbolic_Italic set_flags_Symbolic_Italic_Extern)
  then have "font_flags_to_format flags = {''math''}"
    by (auto simp: font_flags_to_format_def formats_of_set_flags_def)
  with assms(2,3) show ?thesis
    by (simp add: font_formats_def font_names_to_format_empty)
qed

theorem classify_symbolic_italic_is_math_witness:
  "named_bits 68 = {3, 7} \<and> named_bits 524356 = {3, 7, 20} \<and>
   \<not> str_contains ''bold'' (lower ''anything'') \<and>
   \<not> str_contains ''ital'' (lower ''anything'') \<and>
   font_formats 68 ''anything'' = {''math''} \<and>
   font_formats 524356 ''anything'' = {''math''}"
proof -
  have b1: "named_bits 68 = {3, 7}"
    by (simp add: named_bits_def flag_map_def insert_commute)
  have b2: "named_bits 524356 = {3, 7, 20}"
    by (simp add: named_bits_def flag_map_def insert_commute)
  have n1: "\<not> str_contains ''bold'' (lower ''anything'')"
    by (simp add: lower_def lower_char_def)
  have n2: "\<not> str_contains ''ital'' (lower ''anything'')"
    by (simp add: lower_def lower_char_def)
  from b1 have h1: "named_bits 68 = {3, 7} \<or> named_bits 68 = {3, 7, 20}" by simp
  from b2 have h2: "named_bits 524356 = {3, 7} \<or> named_bits 524356 = {3, 7, 20}" by simp
  show ?thesis
    using b1 b2 n1 n2 classify_symbolic_italic_is_math [OF h1 n1 n2]
      classify_symbolic_italic_is_math [OF h2 n1 n2]
    by simp
qed

text \<open>
  Claim C6.  The classifier has no failing branch: for every \<open>flags\<close> and every font
  name it returns a finite set of tags, and on \<open>flags = 0\<close> with the empty font name it
  returns exactly \<open>{plain}\<close>.
\<close>

theorem classify_total_and_zero_plain:
  "font_formats 0 [] = {''plain''} \<and>
   (\<forall>flags font_name. \<exists>formats. font_formats flags font_name = formats \<and> finite formats)"
proof
  show "font_formats 0 [] = {''plain''}"
    by (simp add: font_formats_def font_flags_to_format_def set_flags_zero
        formats_of_set_flags_def font_names_to_format_def lower_def)
next
  show "\<forall>flags font_name. \<exists>formats. font_formats flags font_name = formats \<and> finite formats"
  proof (intro allI)
    fix flags font_name
    have "font_formats flags font_name \<subseteq> {''plain'', ''math'', ''bold'', ''italic''}"
      by (rule font_formats_subset)
    then have "finite (font_formats flags font_name)"
      by (rule finite_subset) simp
    then show "\<exists>formats. font_formats flags font_name = formats \<and> finite formats"
      by simp
  qed
qed

text \<open>
  Claim C7.  When the only bit of \<open>flag_map\<close> set in \<open>flags\<close> is Symbolic (3) and the
  lower-cased font name contains neither \<open>bold\<close> nor \<open>ital\<close>, the classification is the
  empty set: no \<open>plain\<close> is added.
\<close>

theorem classify_only_symbolic_is_empty:
  assumes "named_bits flags = {3}"
    and "\<not> str_contains ''bold'' (lower font_name)"
    and "\<not> str_contains ''ital'' (lower font_name)"
  shows "font_formats flags font_name = {}"
proof -
  from assms(1) have "set_flags_of flags = {''Symbolic''}"
    by (rule set_flags_Symbolic)
  then have "font_flags_to_format flags = {}"
    by (simp add: font_flags_to_format_def formats_of_set_flags_def)
  with assms(2,3) show ?thesis
    by (simp add: font_formats_def font_names_to_format_empty)
qed

theorem classify_only_symbolic_is_empty_witness:
  "named_bits 4 = {3} \<and> \<not> str_contains ''bold'' (lower ''Times'') \<and>
   \<not> str_contains ''ital'' (lower ''Times'') \<and> font_formats 4 ''Times'' = {}"
proof -
  have b: "named_bits 4 = {3}"
    by (simp add: named_bits_def flag_map_def)
  have n1: "\<not> str_contains ''bold'' (lower ''Times'')"
    by (simp add: lower_def lower_char_def)
  have n2: "\<not> str_contains ''ital'' (lower ''Times'')"
    by (simp add: lower_def lower_char_def)
  show ?thesis
    using b n1 n2 classify_only_symbolic_is_empty [OF b n1 n2] by simp
qed

text \<open>
  Claim C10.  For every \<open>flags\<close> and every font name the classification is a subset of
  \<open>{plain, math, bold, italic}\<close>; the tag \<open>chemical\<close> is never in it.
\<close>

theorem classify_tags_never_chemical:
  "font_formats flags font_name \<subseteq> {''plain'', ''math'', ''bold'', ''italic''} \<and>
   ''chemical'' \<notin> font_formats flags font_name"
proof -
  have sub: "font_formats flags font_name \<subseteq> {''plain'', ''math'', ''bold'', ''italic''}"
    by (rule font_formats_subset)
  have "''chemical'' \<notin> {''plain'', ''math'', ''bold'', ''italic''}"
    by simp
  with sub have "''chemical'' \<notin> font_formats flags font_name"
    by (rule contra_subsetD)
  with sub show ?thesis
    by (rule conjI)
qed

section \<open>Rendering a span\<close>

lemma strip_trailing_newlines_eq:
  "strip_trailing_newlines t r =
     (rev (dropWhile (\<lambda>c. c \<in> {CHR 0x0A, CHR 0x0D}) (rev t)),
      r \<or> (t \<noteq> [] \<and> last t \<in> {CHR 0x0A, CHR 0x0D}))"
proof (induction t r rule: strip_trailing_newlines.induct)
  case (1 t r)
  show ?case
  proof (cases "length t > 0 \<and> last t \<in> {CHR 0x0A, CHR 0x0D}")
    case True
    then have ne: "t \<noteq> []" by auto
    then obtain ys y where t: "t = ys @ [y]"
      by (metis append_butlast_last_id)
    from True t have y: "y \<in> {CHR 0x0A, CHR 0x0D}" by simp
    have "strip_trailing_newlines t r = strip_trailing_newlines (butlast t) True"
      using True by (subst strip_trailing_newlines.simps) simp
    also have "\<dots> = (rev (dropWhile (\<lambda>c. c \<in> {CHR 0x0A, CHR 0x0D}) (rev (butlast t))), True)"
      using 1 [OF True] by simp
    finally show ?thesis using t y by simp
  next
    case False
    then have "strip_trailing_newlines t r = (t, r)"
      by (subst strip_trailing_newlines.simps) auto
    moreover from False have "rev (dropWhile (\<lambda>c. c \<in> {CHR 0x0A, CHR 0x0D}) (rev t)) = t"
      by (cases t rule: rev_cases) auto
    ultimately show ?thesis using False by auto
  qed
qed

lemma prepare_hello: "prepare_text ''hello-\<newline>world'' = ''helloworld''"
  by (simp add: prepare_text_def strip_trailing_newlines_eq endswith_hyphen_def html_escape_def
      replace_char_def cleanup_text_def)


text \<open>
  Claim C3.  A span that is not ignored is rendered as its prepared text inside the wrapper of
  the first rule, in the order italic, bold, math, url and anchor, url, anchor, that applies
  to it, and bare when no rule applies: at most one wrapper is put around the text.  A span
  whose formats hold both \<open>italic\<close> and \<open>bold\<close> gets the italic wrapper only.
\<close>

theorem assemble_html_first_wrapper_only:
  "assemble_html s =
     (if ignore_for_output s then []
      else case first_wrapper s of
             None \<Rightarrow> prepare_text (span_text s)
           | Some w \<Rightarrow> wrap w s (prepare_text (span_text s))) \<and>
   (\<not> ignore_for_output s \<and> italic s \<and> bold s \<longrightarrow>
      assemble_html s = ''<i>'' @ prepare_text (span_text s) @ ''</i>'')"
  by (simp add: assemble_html_def first_wrapper_def wrapper_priority_def Let_def)

theorem assemble_html_first_wrapper_only_witness:
  "assemble_html \<lparr>polygon = (), span_text = ''x'', font = ''F'', font_weight = 400,
      font_size = 10, minimum_position = 0, maximum_position = 1,
      formats = [''bold'', ''italic''], page_id = 0, url = Some ''u'', anchor = None,
      ignore_for_output = False\<rparr> = ''<i>x</i>''"
proof -
  let ?s = "\<lparr>polygon = (), span_text = ''x'', font = ''F'', font_weight = 400,
      font_size = 10, minimum_position = 0, maximum_position = 1,
      formats = [''bold'', ''italic''], page_id = 0, url = Some ''u'', anchor = None,
      ignore_for_output = False\<rparr>"
  have h: "\<not> ignore_for_output ?s \<and> italic ?s \<and> bold ?s"
    by (simp add: italic_def bold_def)
  have p: "prepare_text ''x'' = ''x''"
    by (simp add: prepare_text_def strip_trailing_newlines_eq endswith_hyphen_def
        html_escape_def replace_char_def cleanup_text_def)
  have "\<not> ignore_for_output ?s \<and> italic ?s \<and> bold ?s \<longrightarrow>
      assemble_html ?s = ''<i>'' @ prepare_text (span_text ?s) @ ''</i>''"
    using assemble_html_first_wrapper_only [of ?s] by (rule conjunct2)
  from this h have "assemble_html ?s = ''<i>'' @ prepare_text (span_text ?s) @ ''</i>''"
    by (rule mp)
  then show ?thesis by (simp add: p)
qed

text \<open>
  Claim C4.  A span with the text \<open>hello-\<newline>world\<close> (a hyphen, then a newline), no format, no
  url, no anchor and \<open>ignore_for_output\<close> unset is rendered as \<open>helloworld\<close>, with no wrapper.
\<close>

theorem assemble_html_joins_hyphenated_line:
  "assemble_html \<lparr>polygon = p, span_text = ''hello-\<newline>world'', font = f, font_weight = w,
      font_size = sz, minimum_position = lo, maximum_position = hi, formats = [],
      page_id = pg, url = None, anchor = None, ignore_for_output = False\<rparr> = ''helloworld''"
  by (simp add: assemble_html_def prepare_hello italic_def bold_def math_def truthy_def)


section \<open>Cleaning up the text\<close>









section \<open>Pages without text\<close>

lemma strip_blank:
  assumes "\<forall>c \<in> set s. isspace c"
  shows "strip s = []"
proof -
  from assms have "dropWhile isspace s = []"
    by (simp add: dropWhile_eq_Nil_conv)
  then show ?thesis
    unfolding strip_def by (simp only: rev.simps dropWhile.simps)
qed

lemma collect_spans_blank:
  "\<forall>sp \<in> set sps. \<forall>c \<in> set (rs_text sp). isspace c \<Longrightarrow>
   collect_spans env pid sps spans = spans"
  by (induction sps arbitrary: spans) (simp_all add: strip_blank)

lemma collect_lines_blank:
  "\<forall>rl \<in> set rls. \<forall>sp \<in> set (rl_spans rl). \<forall>c \<in> set (rs_text sp). isspace c \<Longrightarrow>
   concat (snd (collect_lines env pid rls (ls, lss))) = concat lss"
  by (induction rls arbitrary: ls lss) (simp_all add: collect_spans_blank)

lemma collect_blocks_blank:
  "\<forall>block \<in> set bs. \<forall>rl \<in> set (rb_lines block). \<forall>sp \<in> set (rl_spans rl).
     \<forall>c \<in> set (rs_text sp). isspace c \<Longrightarrow>
   concat (snd (collect_blocks env pid bs acc)) = concat (snd acc)"
proof (induction bs arbitrary: acc)
  case Nil
  show ?case by simp
next
  case (Cons b bs)
  obtain ls lss where acc: "acc = (ls, lss)" by (cases acc)
  from Cons.prems have b: "\<forall>rl \<in> set (rb_lines b). \<forall>sp \<in> set (rl_spans rl).
      \<forall>c \<in> set (rs_text sp). isspace c"
    and bs: "\<forall>block \<in> set bs. \<forall>rl \<in> set (rb_lines block). \<forall>sp \<in> set (rl_spans rl).
      \<forall>c \<in> set (rs_text sp). isspace c"
    by simp_all
  have "concat (snd (collect_blocks env pid (b # bs) acc)) =
        concat (snd (collect_lines env pid (rb_lines b) acc))"
    using Cons.IH [OF bs] by simp
  also have "\<dots> = concat (snd acc)"
    unfolding acc using collect_lines_blank [OF b] by simp
  finally show ?case .
qed

lemma blank_page_rejected:
  assumes "blank_page page"
  shows "\<not> check_line_spans env (snd (collect_blocks env pid (rp_blocks page) ([], [])))"
proof -
  from assms have "concat (snd (collect_blocks env pid (rp_blocks page) ([], []))) = []"
    unfolding blank_page_def by (simp add: collect_blocks_blank)
  then show ?thesis
    by (simp add: check_line_spans_def)
qed

lemma setup_pages_blank:
  assumes "\<forall>q \<in> set pages. rp_page q = i \<longrightarrow> blank_page q" and "pl i = None"
  shows "setup_pages env pages pl i = None"
  using assms
proof (induction pages arbitrary: pl)
  case Nil
  then show ?case by simp
next
  case (Cons page pages)
  obtain ls lss where cb: "collect_blocks env (rp_page page) (rp_blocks page) ([], []) = (ls, lss)"
    by (cases "collect_blocks env (rp_page page) (rp_blocks page) ([], [])")
  let ?pl = "if check_line_spans env lss then pl(rp_page page \<mapsto> (ls, lss)) else pl"
  have "?pl i = None"
  proof (cases "rp_page page = i")
    case True
    with Cons.prems(1) have "blank_page page" by simp
    from blank_page_rejected [OF this, of env "rp_page page"] cb
    have "\<not> check_line_spans env lss" by simp
    with Cons.prems(2) show ?thesis by simp
  next
    case False
    with Cons.prems(2) show ?thesis by simp
  qed
  moreover from Cons.prems(1) have "\<forall>q \<in> set pages. rp_page q = i \<longrightarrow> blank_page q"
    by simp
  ultimately have "setup_pages env pages ?pl i = None"
    by (rule Cons.IH [rotated])
  then show ?case
    by (simp add: cb)
qed


lemma example_pages_setup:
  "dom (setup_pages example_env example_pages Map.empty) = {1}"
  by (simp add: example_pages_def example_page_def example_span_def example_env_def
      check_line_spans_def strip_def isspace_def make_span_def)

text \<open>
  Claim C1.  When every page record of the engine's output that carries the page index \<open>i\<close>
  has only spans whose text is empty or white space, the page-lines map of the provider has
  no key \<open>i\<close>: the page is absent, not present with empty lines.
\<close>

theorem blank_page_absent_from_page_lines:
  assumes "provider_init env cfg = Inr p"
    and "dictionary_output env (filepath cfg) (page_range cfg) (pdftext_workers cfg)
           (flatten_pdf cfg) = Some pages"
    and "\<forall>q \<in> set pages. rp_page q = i \<longrightarrow> blank_page q"
  shows "i \<notin> dom (page_lines p)"
proof -
  from assms(1,2) have "page_lines p = setup_pages env pages Map.empty"
    by (auto simp: provider_init_def split: option.splits)
  moreover have "setup_pages env pages Map.empty i = None"
    using assms(3) by (rule setup_pages_blank) simp
  ultimately show ?thesis
    by (simp add: domIff)
qed


lemma example_output:
  "dictionary_output example_env (filepath (example_config None))
     (page_range (example_config None)) (pdftext_workers (example_config None))
     (flatten_pdf (example_config None)) = Some example_pages"
  by (simp add: example_env_def example_config_def)

lemma example_init:
  "provider_init example_env (example_config None) =
     Inr \<lparr>doc = \<lparr>doc_len = 2, doc_page = (\<lambda>i. if 0 \<le> i \<and> i < 2 then Some i else None)\<rparr>,
          page_lines = setup_pages example_env example_pages Map.empty\<rparr>"
  unfolding provider_init_def example_output
  by (simp add: example_env_def)

theorem blank_page_absent_from_page_lines_witness:
  "\<exists>p. provider_init example_env (example_config None) = Inr p \<and>
       blank_page (example_page 0 ''  '') \<and> 0 \<notin> dom (page_lines p) \<and> dom (page_lines p) = {1}"
proof -
  let ?p = "\<lparr>doc = \<lparr>doc_len = 2, doc_page = (\<lambda>i. if 0 \<le> i \<and> i < 2 then Some i else None)\<rparr>,
          page_lines = setup_pages example_env example_pages Map.empty\<rparr>"
  have b: "blank_page (example_page 0 ''  '')"
    by (simp add: blank_page_def example_page_def example_span_def isspace_def)
  have h: "\<forall>q \<in> set example_pages. rp_page q = 0 \<longrightarrow> blank_page q"
    using b by (simp add: example_pages_def) (simp add: example_page_def)
  have "0 \<notin> dom (page_lines ?p)"
    using example_init example_output h by (rule blank_page_absent_from_page_lines)
  moreover have "dom (page_lines ?p) = {1}"
    by (simp add: example_pages_setup)
  ultimately show ?thesis
    using example_init b by blast
qed

section \<open>The number of pages\<close>

text \<open>
  Claim C8.  Whatever the page range \<open>r\<close> of the configuration, the length of a provider that
  was set up is the number of pages of the document that was opened for its file path: it
  depends neither on the pages that were extracted nor on those that the check of the lines
  dropped.
\<close>

theorem provider_len_is_document_length:
  assumes "open_document env (filepath cfg) = Some d"
    and "provider_init env (cfg\<lparr>page_range := r\<rparr>) = Inr p"
  shows "provider_len p = doc_len d"
  using assms
  by (auto simp: provider_init_def provider_len_def split: option.splits)

theorem provider_len_is_document_length_witness:
  "\<exists>p. provider_init example_env (example_config (Some [0])) = Inr p \<and>
       dom (page_lines p) = {} \<and> provider_len p = 2"
proof -
  let ?d = "\<lparr>doc_len = 2, doc_page = (\<lambda>i::int. if 0 \<le> i \<and> i < 2 then Some i else None)\<rparr>"
  let ?p = "\<lparr>doc = ?d,
          page_lines = setup_pages example_env [example_page 0 ''  ''] Map.empty\<rparr>"
  have o: "open_document example_env (filepath (example_config None)) = Some ?d"
    by (simp add: example_env_def)
  have i: "provider_init example_env ((example_config None)\<lparr>page_range := Some [0]\<rparr>) = Inr ?p"
    by (simp add: provider_init_def example_env_def example_config_def example_pages_def
        example_page_def)
  have c: "(example_config None)\<lparr>page_range := Some [0]\<rparr> = example_config (Some [0])"
    by (simp add: example_config_def)
  have "provider_len ?p = doc_len ?d"
    using o i by (rule provider_len_is_document_length)
  moreover have "dom (page_lines ?p) = {}"
    by (simp add: example_page_def example_span_def example_env_def
      check_line_spans_def strip_def isspace_def)
  ultimately show ?thesis
    using i c by auto
qed

section \<open>The cache of page images\<close>



















end
